theory Spec2Isabelle
  imports Complex_Main
begin

section \<open>JavaScript primitives used by the signal engine\<close>

text \<open>
  The engine lives in \<^verbatim>\<open>updateGeometry\<close> and \<^verbatim>\<open>updateTutorialState\<close> of the
  full variant of the visualisation (the one with the four waveform modes). JavaScript
  numbers are modelled as mathematical reals: IEEE rounding, \<^verbatim>\<open>NaN\<close> and the
  infinities are outside the model. Every division the code evaluates on a path that
  reaches the output has a non-zero divisor (the loop body runs only for
  \<^verbatim>\<open>i < CONFIG.points\<close>, the quotient \<^verbatim>\<open>integral / norm\<close> is guarded, and
  \<^verbatim>\<open>CONFIG.f2 || 1\<close> replaces a zero divisor).

  One function is not fixed: \<^verbatim>\<open>Math.sin\<close> is a parameter \<open>msin\<close> of every
  definition that calls it. The square waveform takes the sign of a computed sine, and at
  a zero crossing of the mathematical sine the computed one is a small non-zero number
  (\<^verbatim>\<open>Math.sin(Math.PI)\<close> is about \<open>1.2e-16\<close>), so its sign is not the sign of the
  mathematical value. The general theorems hold for every \<open>msin\<close>; the closed
  instances take the mathematical sine.
\<close>

datatype js_error = RangeError

text \<open>\<^verbatim>\<open>Math.round\<close>: the nearest integer, a tie going up.\<close>

definition Math_round :: "real \<Rightarrow> int" where
  "Math_round v = \<lfloor>v + 1 / 2\<rfloor>"

text \<open>\<^verbatim>\<open>Math.sign\<close>: \<open>-1\<close>, \<open>0\<close> or \<open>1\<close>.\<close>

definition Math_sign :: "real \<Rightarrow> real" where
  "Math_sign v = (if v > 0 then 1 else if v < 0 then - 1 else 0)"

text \<open>
  The remainder operator \<^verbatim>\<open>%\<close>: the quotient is truncated towards zero, so the
  result has the sign of the dividend.
\<close>

definition js_rem :: "real \<Rightarrow> real \<Rightarrow> real" where
  "js_rem a b =
     (let q = a / b;
          t = (if q \<ge> 0 then \<lfloor>q\<rfloor> else \<lceil>q\<rceil>)
      in a - b * real_of_int t)"

text \<open>
  \<^verbatim>\<open>v.toFixed(d)\<close> followed by reading the string back as a number
  (\<^verbatim>\<open>parseFloat\<close>, or the implicit conversion of an arithmetic operand). More
  than 100 digits is a \<^verbatim>\<open>RangeError\<close>. A magnitude of \<open>10\<^sup>2\<^sup>1\<close> or more is
  printed in full, so the number read back is \<open>v\<close>. Otherwise the string denotes the
  multiple of \<open>10\<^sup>-\<^sup>d\<close> nearest to \<open>v\<close>, a tie going away from zero. The sign
  of a zero (\<^verbatim>\<open>"-0.000"\<close>) is not kept.
\<close>

definition toFixed :: "nat \<Rightarrow> real \<Rightarrow> js_error + real" where
  "toFixed d v =
     (if d > 100 then Inl RangeError
      else if \<bar>v\<bar> \<ge> 10 ^ 21 then Inr v
      else if v < 0 then Inr (- (real_of_int \<lfloor>(- v) * 10 ^ d + 1 / 2\<rfloor> / 10 ^ d))
      else Inr (real_of_int \<lfloor>v * 10 ^ d + 1 / 2\<rfloor> / 10 ^ d))"

section \<open>Configuration\<close>

datatype mode = Sine | Square | Wave | Poly

record config =
  f1 :: real
  f2 :: real
  amp1 :: real
  amp2 :: real
  phase :: real
  speed :: real
  points :: nat
  length_cfg :: real
  isAudioOn :: bool
  mode :: mode

section \<open>Math helpers\<close>

definition getWalsh :: "(real \<Rightarrow> real) \<Rightarrow> real \<Rightarrow> real \<Rightarrow> real" where
  "getWalsh msin f t = Math_sign (msin (2 * pi * f * t))"

text \<open>
  The body of the \<^verbatim>\<open>for (let k = 2; k <= n; k++)\<close> loop of \<^verbatim>\<open>getLegendre\<close>,
  with the three loop variables passed along.
\<close>

function legendre_loop :: "int \<Rightarrow> int \<Rightarrow> real \<Rightarrow> real \<Rightarrow> real \<Rightarrow> real \<Rightarrow> real" where
  "legendre_loop n k x p_prev2 p_prev1 p_curr =
     (if k \<le> n
      then (let p_new = ((2 * real_of_int k - 1) * x * p_prev1 - (real_of_int k - 1) * p_prev2)
                          / real_of_int k
            in legendre_loop n (k + 1) x p_prev1 p_new p_new)
      else p_curr)"
  by pat_completeness auto
termination
  by (relation "measure (\<lambda>(n, k, x, a, b, c). nat (n + 1 - k))") auto

declare legendre_loop.simps [simp del]

definition getLegendre :: "int \<Rightarrow> real \<Rightarrow> real" where
  "getLegendre n x =
     (if n = 0 then 1
      else if n = 1 then x
      else legendre_loop n 2 x 1 x x)"

section \<open>Geometry generation\<close>

text \<open>
  One pass of the sampling loop computes the pair \<open>(x, y)\<close> of signal values and the
  depth \<open>z\<close> of sample \<open>i\<close>.
\<close>

definition sample :: "(real \<Rightarrow> real) \<Rightarrow> config \<Rightarrow> nat \<Rightarrow> real \<times> real \<times> real" where
  "sample msin c i =
     (let tRelative = real i / real (points c);
          tReal = tRelative * length_cfg c;
          z = tReal - length_cfg c / 2;
          phiRad = (phase c * pi) / 180
      in case mode c of
           Square \<Rightarrow>
             (let tShift = (phase c / 360) / (if f2 c = 0 then 1 else f2 c)
              in (getWalsh msin (f1 c) tRelative * 0.8 * amp1 c,
                  Math_sign (msin (2 * pi * f2 c * (tRelative + tShift))) * 0.8 * amp2 c,
                  z))
         | Wave \<Rightarrow>
             (let shift = (phase c / 360) * length_cfg c * 0.5;
                  center1 = 0.3 * length_cfg c;
                  center2 = 0.7 * length_cfg c - shift;
                  sigma = 0.8;
                  t1 = tReal - center1;
                  t2 = tReal - center2;
                  env1 = exp (- (t1 * t1) / (2 * sigma));
                  env2 = exp (- (t2 * t2) / (2 * sigma))
              in (env1 * msin (2 * pi * f1 c * t1) * amp1 c,
                  env2 * msin (2 * pi * f2 c * t2) * amp2 c,
                  z))
         | Poly \<Rightarrow>
             (let tNorm = (tRelative * 2) - 1;
                  order1 = Math_round (f1 c);
                  order2 = Math_round (f2 c)
              in (getLegendre order1 tNorm * amp1 c,
                  getLegendre order2 tNorm * amp2 c,
                  z))
         | Sine \<Rightarrow>
             (msin (2 * pi * f1 c * tRelative) * amp1 c,
              msin (2 * pi * f2 c * tRelative + phiRad) * amp2 c,
              z))"

text \<open>The variables the loop of \<^verbatim>\<open>updateGeometry\<close> updates.\<close>

record geometry =
  p1 :: "real list"
  p2 :: "real list"
  pSum :: "real list"
  integral :: real
  power1 :: real
  power2' :: real

definition geometry_init :: geometry where
  "geometry_init = \<lparr>p1 = [], p2 = [], pSum = [], integral = 0, power1 = 0, power2' = 0\<rparr>"

definition loop_body :: "(real \<Rightarrow> real) \<Rightarrow> config \<Rightarrow> nat \<Rightarrow> geometry \<Rightarrow> geometry" where
  "loop_body msin c i g =
     (let dt = length_cfg c / real (points c)
      in case sample msin c i of (x, y, z) \<Rightarrow>
           \<lparr>p1 = p1 g @ [x, 0, z],
            p2 = p2 g @ [0, y, z],
            pSum = pSum g @ [x, y, z],
            integral = integral g + x * y * dt,
            power1 = power1 g + x * x * dt,
            power2' = power2' g + y * y * dt\<rparr>)"

definition geometry_loop :: "(real \<Rightarrow> real) \<Rightarrow> config \<Rightarrow> geometry" where
  "geometry_loop msin c = fold (loop_body msin c) [0..<points c] geometry_init"

section \<open>Tutorial state\<close>

datatype style = Critical | Magic | Normal

text \<open>
  The title and text pairs the tutorial box can show, one constructor per pair. The
  Legendre message carries the two rounded orders it prints; a preset message carries
  the key of its entry in \<^verbatim>\<open>TARGETS\<close>.
\<close>

datatype message =
    PacketCollision
  | BasisCollapse
  | VisualIllusion
  | SignalCollision
  | TimeOrthogonality
  | WalshOrthogonal
  | LegendreOrthogonal int int
  | IQMagic
  | Preset string

definition TARGETS :: "string list" where
  "TARGETS = [''3d'', ''top'', ''xy'', ''f1'', ''f2'', ''iso'', ''comp'']"

text \<open>
  The part of the page the engine reads and writes: the view id of the active preset
  button, if there is one (its element id without the \<^verbatim>\<open>view-\<close> prefix), the style
  last given to \<^verbatim>\<open>setStyle\<close> (which also fixes the colour of the composite curve)
  and the message the tutorial box shows. The elements the code looks up by id are taken
  to exist.
\<close>

record page =
  activeBtn :: "string option"
  box_style :: style
  tutorial :: message

definition updateTutorialState :: "config \<Rightarrow> page \<Rightarrow> real \<Rightarrow> page" where
  "updateTutorialState c pg absCorr =
     (let activeId = (case activeBtn pg of Some b \<Rightarrow> b | None \<Rightarrow> ''3d'');
          isIsoView = (activeId = ''f1'' \<or> activeId = ''f2'')
      in if absCorr > 0.8 then
           pg\<lparr>box_style := Critical,
              tutorial :=
                (if mode c = Wave then PacketCollision
                 else if mode c = Poly then BasisCollapse
                 else if isIsoView then VisualIllusion else SignalCollision)\<rparr>
         else if mode c = Wave then pg\<lparr>box_style := Normal, tutorial := TimeOrthogonality\<rparr>
         else if mode c = Square then pg\<lparr>box_style := Normal, tutorial := WalshOrthogonal\<rparr>
         else if mode c = Poly then
           pg\<lparr>box_style := Normal,
              tutorial := LegendreOrthogonal (Math_round (f1 c)) (Math_round (f2 c))\<rparr>
         else if f1 c = f2 c \<and> \<bar>js_rem (phase c) 180 - 90\<bar> < 10 then
           pg\<lparr>box_style := Magic, tutorial := IQMagic\<rparr>
         else if activeId \<in> set TARGETS then
           pg\<lparr>box_style := Normal, tutorial := Preset activeId\<rparr>
         else pg\<lparr>box_style := Normal\<rparr>)"

section \<open>The statistic and the whole update\<close>

text \<open>
  What one call of \<^verbatim>\<open>updateGeometry\<close> leaves behind: the position arrays given to
  the three curves (flat, three numbers per sample, before their conversion to 32-bit
  floats), the two numbers printed in the statistics panel and the tutorial state.
\<close>

record display =
  curveF1 :: "real list"
  curveF2 :: "real list"
  curveSum :: "real list"
  stat_corr :: real
  stat_ortho :: real
  page_after :: page

text \<open>
  The lines after the loop: the norm, the guarded quotient printed with three decimals,
  and the score printed with one. The result is the number shown in
  \<^verbatim>\<open>stat-corr\<close>, its absolute value, and the number shown in \<^verbatim>\<open>stat-ortho\<close>.
\<close>

definition statistic :: "geometry \<Rightarrow> js_error + real \<times> real \<times> real" where
  "statistic g =
     (let norm' = sqrt (power1 g * power2' g)
      in case (if norm' > 0 then toFixed 3 (integral g / norm') else Inr 0) of
           Inl e \<Rightarrow> Inl e
         | Inr corr \<Rightarrow>
             (let absCorr = \<bar>corr\<bar>
              in case toFixed 1 (100 - absCorr * 100) of
                   Inl e \<Rightarrow> Inl e
                 | Inr orthoScore \<Rightarrow> Inr (corr, absCorr, orthoScore)))"

definition updateGeometry :: "(real \<Rightarrow> real) \<Rightarrow> config \<Rightarrow> page \<Rightarrow> js_error + display" where
  "updateGeometry msin c pg =
     (let g = geometry_loop msin c
      in case statistic g of
           Inl e \<Rightarrow> Inl e
         | Inr (corr, absCorr, orthoScore) \<Rightarrow>
             Inr \<lparr>curveF1 = p1 g, curveF2 = p2 g, curveSum = pSum g,
                  stat_corr = corr, stat_ortho = orthoScore,
                  page_after = updateTutorialState c pg absCorr\<rparr>)"

section \<open>The quantities the specification speaks of\<close>

text \<open>
  The two sampled sequences and the depth of a sample are the components of
  \<open>sample\<close>; the step is the constant \<^verbatim>\<open>dt\<close> of \<^verbatim>\<open>updateGeometry\<close>.
\<close>

definition valueA :: "(real \<Rightarrow> real) \<Rightarrow> config \<Rightarrow> nat \<Rightarrow> real" where
  "valueA msin c i = fst (sample msin c i)"

definition valueB :: "(real \<Rightarrow> real) \<Rightarrow> config \<Rightarrow> nat \<Rightarrow> real" where
  "valueB msin c i = fst (snd (sample msin c i))"

definition position :: "(real \<Rightarrow> real) \<Rightarrow> config \<Rightarrow> nat \<Rightarrow> real" where
  "position msin c i = snd (snd (sample msin c i))"

definition dt :: "config \<Rightarrow> real" where
  "dt c = length_cfg c / real (points c)"

text \<open>
  The statistic as the specification writes it: left Riemann sums, their norm and the
  guarded quotient, with no rounding.
\<close>

definition spec_innerProduct :: "(real \<Rightarrow> real) \<Rightarrow> config \<Rightarrow> real" where
  "spec_innerProduct msin c = (\<Sum>i<points c. valueA msin c i * valueB msin c i * dt c)"

definition spec_powerA :: "(real \<Rightarrow> real) \<Rightarrow> config \<Rightarrow> real" where
  "spec_powerA msin c = (\<Sum>i<points c. (valueA msin c i)\<^sup>2 * dt c)"

definition spec_powerB :: "(real \<Rightarrow> real) \<Rightarrow> config \<Rightarrow> real" where
  "spec_powerB msin c = (\<Sum>i<points c. (valueB msin c i)\<^sup>2 * dt c)"

definition spec_norm :: "(real \<Rightarrow> real) \<Rightarrow> config \<Rightarrow> real" where
  "spec_norm msin c = sqrt (spec_powerA msin c * spec_powerB msin c)"

definition spec_correlation :: "(real \<Rightarrow> real) \<Rightarrow> config \<Rightarrow> real" where
  "spec_correlation msin c = (if spec_norm msin c > 0 then spec_innerProduct msin c / spec_norm msin c else 0)"

text \<open>The square waveform as the specification writes it.\<close>

definition spec_square :: "(real \<Rightarrow> real) \<Rightarrow> real \<Rightarrow> real \<Rightarrow> real \<Rightarrow> real \<Rightarrow> real" where
  "spec_square msin amplitude frequency tNormalized phaseOffset =
     amplitude * Math_sign (msin (2 * pi * frequency * tNormalized + phaseOffset))"

text \<open>
  The phase condition of the quadrature case as the specification writes it: the phase
  modulo 180, the mathematical remainder in the interval from 0 to 180, is within 10
  degrees of 90, the bound included.
\<close>

definition spec_mod :: "real \<Rightarrow> real \<Rightarrow> real" where
  "spec_mod a b = a - b * real_of_int \<lfloor>a / b\<rfloor>"

definition spec_quadrature_phase :: "real \<Rightarrow> bool" where
  "spec_quadrature_phase p = (\<bar>spec_mod p 180 - 90\<bar> \<le> 10)"

text \<open>The Legendre polynomials by the three-term recurrence of the specification.\<close>

fun spec_legendre :: "nat \<Rightarrow> real \<Rightarrow> real" where
  "spec_legendre 0 x = 1"
| "spec_legendre (Suc 0) x = x"
| "spec_legendre (Suc (Suc k)) x =
     ((2 * real (Suc (Suc k)) - 1) * x * spec_legendre (Suc k) x
        - (real (Suc (Suc k)) - 1) * spec_legendre k x) / real (Suc (Suc k))"

section \<open>Concrete configurations\<close>

text \<open>
  The configuration the page starts with, and the page after the initial
  \<^verbatim>\<open>transitionCamera('3d')\<close>.
\<close>

definition cfg_default :: config where
  "cfg_default = \<lparr>f1 = 2, f2 = 3, amp1 = 1, amp2 = 1, phase = 0, speed = 1 / 2, points = 1200,
     length_cfg = 12, isAudioOn = False, mode = Sine\<rparr>"

definition page0 :: page where
  "page0 = \<lparr>activeBtn = Some ''3d'', box_style = Normal, tutorial = Preset ''3d''\<rparr>"

text \<open>The page after \<^verbatim>\<open>transitionCamera('f1')\<close>.\<close>

definition page_f1 :: page where
  "page_f1 = \<lparr>activeBtn = Some ''f1'', box_style = Normal, tutorial = Preset ''f1''\<rparr>"

text \<open>
  The start configuration in square mode and in Legendre mode, after the scenario buttons
  \<^verbatim>\<open>scene-bad\<close> (equal frequencies, phase 0) and \<^verbatim>\<open>scene-iq\<close> (equal
  frequencies, phase 90), and with a single sample.
\<close>

definition cfg_square :: config where
  "cfg_square = cfg_default\<lparr>mode := Square\<rparr>"

definition cfg_poly :: config where
  "cfg_poly = cfg_default\<lparr>mode := Poly\<rparr>"

definition cfg_collision :: config where
  "cfg_collision = cfg_default\<lparr>f2 := 2\<rparr>"

definition cfg_iq :: config where
  "cfg_iq = cfg_default\<lparr>f2 := 2, phase := 90\<rparr>"

definition cfg_one_point :: config where
  "cfg_one_point = cfg_default\<lparr>points := 1\<rparr>"

text \<open>
  Equal frequencies with the phase slider at 100 and at \<open>-90\<close>, and the first of them
  with the first amplitude slider at 0.
\<close>

definition cfg_phase100 :: config where
  "cfg_phase100 = cfg_default\<lparr>f2 := 2, phase := 100\<rparr>"

definition cfg_phase_neg90 :: config where
  "cfg_phase_neg90 = cfg_default\<lparr>f2 := 2, phase := - 90\<rparr>"

definition cfg_phase100_silent :: config where
  "cfg_phase100_silent = cfg_phase100\<lparr>amp1 := 0\<rparr>"

text \<open>Legendre mode with orders 0 and 1 on five samples.\<close>

definition cfg_legendre5 :: config where
  "cfg_legendre5 = \<lparr>f1 = 0, f2 = 1, amp1 = 1, amp2 = 1, phase = 0, speed = 1 / 2, points = 5,
     length_cfg = 12, isAudioOn = False, mode = Poly\<rparr>"

text \<open>Accumulator values with an inner product larger than the norm.\<close>

definition geometry_overshoot :: geometry where
  "geometry_overshoot = \<lparr>p1 = [], p2 = [], pSum = [], integral = 3, power1 = 1, power2' = 1\<rparr>"

section \<open>The sampling loop computes the Riemann sums\<close>

lemma loop_body_sel:
  "integral (loop_body msin c i g) = integral g + valueA msin c i * valueB msin c i * dt c"
  "power1 (loop_body msin c i g) = power1 g + valueA msin c i * valueA msin c i * dt c"
  "power2' (loop_body msin c i g) = power2' g + valueB msin c i * valueB msin c i * dt c"
  "p1 (loop_body msin c i g) = p1 g @ [valueA msin c i, 0, position msin c i]"
  "p2 (loop_body msin c i g) = p2 g @ [0, valueB msin c i, position msin c i]"
  "pSum (loop_body msin c i g) = pSum g @ [valueA msin c i, valueB msin c i, position msin c i]"
  by (simp_all add: loop_body_def valueA_def valueB_def position_def dt_def split: prod.splits)

lemma fold_integral:
  "integral (fold (loop_body msin c) [0..<n] g) = integral g + (\<Sum>i<n. valueA msin c i * valueB msin c i * dt c)"
  by (induction n) (simp_all add: loop_body_sel)

lemma fold_power1:
  "power1 (fold (loop_body msin c) [0..<n] g) = power1 g + (\<Sum>i<n. valueA msin c i * valueA msin c i * dt c)"
  by (induction n) (simp_all add: loop_body_sel)

lemma fold_power2:
  "power2' (fold (loop_body msin c) [0..<n] g) = power2' g + (\<Sum>i<n. valueB msin c i * valueB msin c i * dt c)"
  by (induction n) (simp_all add: loop_body_sel)

lemma fold_p1:
  "p1 (fold (loop_body msin c) [0..<n] g) = p1 g @ concat (map (\<lambda>i. [valueA msin c i, 0, position msin c i]) [0..<n])"
  by (induction n) (simp_all add: loop_body_sel)

lemma fold_p2:
  "p2 (fold (loop_body msin c) [0..<n] g) = p2 g @ concat (map (\<lambda>i. [0, valueB msin c i, position msin c i]) [0..<n])"
  by (induction n) (simp_all add: loop_body_sel)

lemma fold_pSum:
  "pSum (fold (loop_body msin c) [0..<n] g) = pSum g @ concat (map (\<lambda>i. [valueA msin c i, valueB msin c i, position msin c i]) [0..<n])"
  by (induction n) (simp_all add: loop_body_sel)

lemma cauchy_schwarz_sum:
  fixes a b :: "nat \<Rightarrow> real"
  shows "(\<Sum>i<n. a i * b i)\<^sup>2 \<le> (\<Sum>i<n. a i * a i) * (\<Sum>i<n. b i * b i)"
proof (induction n)
  case 0
  show ?case by simp
next
  case (Suc n)
  define S where "S = (\<Sum>i<n. a i * b i)"
  define A where "A = (\<Sum>i<n. a i * a i)"
  define B where "B = (\<Sum>i<n. b i * b i)"
  have A0: "0 \<le> A" unfolding A_def by (intro sum_nonneg) simp
  have B0: "0 \<le> B" unfolding B_def by (intro sum_nonneg) simp
  have IH: "S\<^sup>2 \<le> A * B" using Suc.IH by (simp add: S_def A_def B_def)
  let ?u = "a n" and ?v = "b n"
  have R0: "0 \<le> A * (?v * ?v) + B * (?u * ?u)" using A0 B0 by simp
  have "(2 * S * ?u * ?v)\<^sup>2 = 4 * S\<^sup>2 * (?u * ?u) * (?v * ?v)"
    by (simp add: power2_eq_square)
  also have "\<dots> \<le> 4 * (A * B) * (?u * ?u) * (?v * ?v)"
    using IH by (intro mult_right_mono mult_left_mono) simp_all
  also have "\<dots> \<le> (A * (?v * ?v) + B * (?u * ?u))\<^sup>2"
  proof -
    have "0 \<le> (A * (?v * ?v) - B * (?u * ?u))\<^sup>2" by simp
    then show ?thesis by (simp add: power2_eq_square algebra_simps)
  qed
  finally have "\<bar>2 * S * ?u * ?v\<bar> \<le> A * (?v * ?v) + B * (?u * ?u)"
    using R0 by (simp add: abs_le_square_iff [symmetric])
  then have "2 * S * ?u * ?v \<le> A * (?v * ?v) + B * (?u * ?u)" by linarith
  moreover have "(S + ?u * ?v)\<^sup>2 = S\<^sup>2 + 2 * S * ?u * ?v + (?u * ?v)\<^sup>2"
    by (simp add: power2_eq_square algebra_simps)
  moreover have "(A + ?u * ?u) * (B + ?v * ?v) = A * B + A * (?v * ?v) + B * (?u * ?u) + (?u * ?v)\<^sup>2"
    by (simp add: power2_eq_square algebra_simps)
  ultimately have "(S + ?u * ?v)\<^sup>2 \<le> (A + ?u * ?u) * (B + ?v * ?v)"
    using IH by linarith
  then show ?case by (simp add: S_def A_def B_def)
qed

section \<open>Rounding by \<^verbatim>\<open>toFixed\<close>\<close>

lemma toFixed_Inr: "d \<le> 100 \<Longrightarrow> \<exists>r. toFixed d v = Inr r"
  by (simp add: toFixed_def)

lemma floor_int_half: "\<lfloor>real_of_int k + 1 / 2\<rfloor> = k"
  by linarith

lemma toFixed_large:
  assumes "d \<le> 100" and "\<bar>v\<bar> \<ge> 10 ^ 21"
  shows "toFixed d v = Inr v"
  using assms by (simp add: toFixed_def)

lemma toFixed_multiple:
  assumes "d \<le> 100"
  shows "toFixed d (real_of_int k / 10 ^ d) = Inr (real_of_int k / 10 ^ d)"
proof (cases "\<bar>real_of_int k / 10 ^ d\<bar> \<ge> (10 :: real) ^ 21")
  case True
  then show ?thesis using assms by (simp add: toFixed_def)
next
  case small: False
  show ?thesis
  proof (cases "k < 0")
    case True
    then have neg: "real_of_int k / 10 ^ d < 0" by (simp add: divide_neg_pos)
    have "\<lfloor>- (real_of_int k / 10 ^ d) * 10 ^ d + 1 / 2\<rfloor> = - k"
      using floor_int_half [of "- k"] by simp
    then show ?thesis using assms neg small by (simp add: toFixed_def)
  next
    case False
    then have nn: "\<not> real_of_int k / 10 ^ d < 0" by (simp add: not_less)
    have "\<lfloor>real_of_int k / 10 ^ d * 10 ^ d + 1 / 2\<rfloor> = k"
      using floor_int_half [of k] by simp
    then show ?thesis using assms nn small by (simp add: toFixed_def)
  qed
qed

lemma toFixed_form:
  assumes "toFixed d v = Inr r"
  shows "(\<exists>k. r = real_of_int k / 10 ^ d) \<or> (r = v \<and> \<bar>v\<bar> \<ge> 10 ^ 21)"
  using assms
  by (auto simp: toFixed_def split: if_splits intro: exI [of _ "- \<lfloor>- v * 10 ^ d + 1 / 2\<rfloor>"])

lemma toFixed_3_unit:
  assumes "\<bar>v\<bar> \<le> 1" and "toFixed 3 v = Inr r"
  shows "\<bar>r\<bar> \<le> 1"
proof -
  have small: "\<not> \<bar>v\<bar> \<ge> 10 ^ 21" using assms(1) by simp
  show ?thesis
  proof (cases "v < 0")
    case True
    define k where "k = \<lfloor>- v * 1000 + 1 / 2\<rfloor>"
    have "k \<le> 1000" "0 \<le> k" unfolding k_def using assms(1) True by linarith+
    then have "real_of_int k \<le> 1000" "0 \<le> real_of_int k" by simp_all
    moreover have "r = - (real_of_int k / 1000)"
      using assms(2) True small by (simp add: toFixed_def k_def)
    ultimately show ?thesis by linarith
  next
    case False
    define k where "k = \<lfloor>v * 1000 + 1 / 2\<rfloor>"
    have "k \<le> 1000" "0 \<le> k" unfolding k_def using assms(1) False by linarith+
    then have "real_of_int k \<le> 1000" "0 \<le> real_of_int k" by simp_all
    moreover have "r = real_of_int k / 1000"
      using assms(2) False small by (simp add: toFixed_def k_def)
    ultimately show ?thesis by linarith
  qed
qed

lemma toFixed_3_near:
  assumes "toFixed 3 v = Inr r"
  shows "\<bar>r - v\<bar> \<le> 1 / 2000"
proof (cases "\<bar>v\<bar> \<ge> 10 ^ 21")
  case True
  then show ?thesis using assms by (simp add: toFixed_def)
next
  case small: False
  show ?thesis
  proof (cases "v < 0")
    case True
    define k where "k = \<lfloor>- v * 1000 + 1 / 2\<rfloor>"
    have "real_of_int k \<le> - v * 1000 + 1 / 2" "- v * 1000 + 1 / 2 < real_of_int k + 1"
      unfolding k_def by linarith+
    moreover have "r = - (real_of_int k / 1000)"
      using assms True small by (simp add: toFixed_def k_def)
    ultimately show ?thesis by linarith
  next
    case False
    define k where "k = \<lfloor>v * 1000 + 1 / 2\<rfloor>"
    have "real_of_int k \<le> v * 1000 + 1 / 2" "v * 1000 + 1 / 2 < real_of_int k + 1"
      unfolding k_def by linarith+
    moreover have "r = real_of_int k / 1000"
      using assms False small by (simp add: toFixed_def k_def)
    ultimately show ?thesis by linarith
  qed
qed

lemma ortho_exact:
  assumes "toFixed 3 v = Inr r"
  shows "toFixed 1 (100 - \<bar>r\<bar> * 100) = Inr (100 - \<bar>r\<bar> * 100)"
proof -
  consider k where "r = real_of_int k / 10 ^ 3" | "\<bar>r\<bar> \<ge> 10 ^ 21"
    using toFixed_form [OF assms] by blast
  then show ?thesis
  proof cases
    case 1
    have eq: "100 - \<bar>r\<bar> * 100 = real_of_int (1000 - \<bar>k\<bar>) / 10 ^ 1"
      by (simp add: 1)
    show ?thesis unfolding eq by (rule toFixed_multiple) simp
  next
    case 2
    then have "\<bar>100 - \<bar>r\<bar> * 100\<bar> \<ge> 10 ^ 21" by simp
    then show ?thesis by (rule toFixed_large [rotated]) simp
  qed
qed

section \<open>The statistic of the accumulated sums\<close>

lemma geometry_loop_sums:
  "integral (geometry_loop msin c) = spec_innerProduct msin c"
  "power1 (geometry_loop msin c) = spec_powerA msin c"
  "power2' (geometry_loop msin c) = spec_powerB msin c"
  by (simp_all add: geometry_loop_def geometry_init_def fold_integral fold_power1 fold_power2
      spec_innerProduct_def spec_powerA_def spec_powerB_def power2_eq_square)

lemma geometry_loop_curves:
  "p1 (geometry_loop msin c) = concat (map (\<lambda>i. [valueA msin c i, 0, position msin c i]) [0..<points c])"
  "p2 (geometry_loop msin c) = concat (map (\<lambda>i. [0, valueB msin c i, position msin c i]) [0..<points c])"
  "pSum (geometry_loop msin c) = concat (map (\<lambda>i. [valueA msin c i, valueB msin c i, position msin c i]) [0..<points c])"
  by (simp_all add: geometry_loop_def geometry_init_def fold_p1 fold_p2 fold_pSum)

lemma toFixed_1_hundred: "toFixed 1 100 = Inr 100"
  using toFixed_multiple [of 1 1000] by simp

lemma statistic_zero_norm:
  assumes "\<not> sqrt (power1 g * power2' g) > 0"
  shows "statistic g = Inr (0, 0, 100)"
  using assms toFixed_1_hundred by (simp add: statistic_def)

lemma statistic_pos_norm:
  assumes "sqrt (power1 g * power2' g) > 0"
    and "toFixed 3 (integral g / sqrt (power1 g * power2' g)) = Inr r"
  shows "statistic g = Inr (r, \<bar>r\<bar>, 100 - \<bar>r\<bar> * 100)"
  using assms ortho_exact [OF assms(2)] by (simp add: statistic_def Let_def)

lemma statistic_cases:
  obtains "\<not> sqrt (power1 g * power2' g) > 0" and "statistic g = Inr (0, 0, 100)"
  | r where "sqrt (power1 g * power2' g) > 0"
      and "toFixed 3 (integral g / sqrt (power1 g * power2' g)) = Inr r"
      and "statistic g = Inr (r, \<bar>r\<bar>, 100 - \<bar>r\<bar> * 100)"
proof (cases "sqrt (power1 g * power2' g) > 0")
  case True
  obtain r where "toFixed 3 (integral g / sqrt (power1 g * power2' g)) = Inr r"
    using toFixed_Inr [of 3] by auto
  with True that(2) statistic_pos_norm show thesis by blast
next
  case False
  with that(1) statistic_zero_norm show thesis by blast
qed

lemma updateGeometry_statistic:
  assumes "statistic (geometry_loop msin c) = Inr (r, a, s)"
  shows "updateGeometry msin c pg =
           Inr \<lparr>curveF1 = p1 (geometry_loop msin c), curveF2 = p2 (geometry_loop msin c),
                curveSum = pSum (geometry_loop msin c), stat_corr = r, stat_ortho = s,
                page_after = updateTutorialState c pg a\<rparr>"
  using assms by (simp add: updateGeometry_def Let_def)

lemma spec_norm_abs:
  "spec_norm msin c = \<bar>dt c\<bar> * sqrt ((\<Sum>i<points c. valueA msin c i * valueA msin c i) * (\<Sum>i<points c. valueB msin c i * valueB msin c i))"
proof -
  have A: "spec_powerA msin c = dt c * (\<Sum>i<points c. valueA msin c i * valueA msin c i)"
    by (simp add: spec_powerA_def power2_eq_square sum_distrib_left mult.commute)
  have B: "spec_powerB msin c = dt c * (\<Sum>i<points c. valueB msin c i * valueB msin c i)"
    by (simp add: spec_powerB_def power2_eq_square sum_distrib_left mult.commute)
  have "spec_powerA msin c * spec_powerB msin c
          = (dt c)\<^sup>2 * ((\<Sum>i<points c. valueA msin c i * valueA msin c i) * (\<Sum>i<points c. valueB msin c i * valueB msin c i))"
    by (simp add: A B power2_eq_square)
  then show ?thesis by (simp add: spec_norm_def real_sqrt_mult)
qed

lemma spec_inner_le_norm: "\<bar>spec_innerProduct msin c\<bar> \<le> spec_norm msin c"
proof -
  let ?S = "\<Sum>i<points c. valueA msin c i * valueB msin c i"
  let ?A = "\<Sum>i<points c. valueA msin c i * valueA msin c i"
  let ?B = "\<Sum>i<points c. valueB msin c i * valueB msin c i"
  have "spec_innerProduct msin c = dt c * ?S"
    by (simp add: spec_innerProduct_def sum_distrib_left mult.commute)
  then have "\<bar>spec_innerProduct msin c\<bar> = \<bar>dt c\<bar> * \<bar>?S\<bar>" by (simp add: abs_mult)
  moreover have "\<bar>?S\<bar> \<le> sqrt (?A * ?B)"
    using cauchy_schwarz_sum [of "valueA msin c" "valueB msin c" "points c"]
    by (metis real_sqrt_abs real_sqrt_le_iff)
  ultimately show ?thesis by (simp add: spec_norm_abs mult_left_mono)
qed

lemma spec_correlation_unit: "\<bar>spec_correlation msin c\<bar> \<le> 1"
proof (cases "spec_norm msin c > 0")
  case True
  then show ?thesis using spec_inner_le_norm [of msin c] by (simp add: spec_correlation_def)
next
  case False
  then show ?thesis by (simp add: spec_correlation_def)
qed

lemma updateGeometry_rounded:
  assumes "spec_norm msin c > 0" and "toFixed 3 (spec_innerProduct msin c / spec_norm msin c) = Inr r"
  shows "updateGeometry msin c pg =
           Inr \<lparr>curveF1 = p1 (geometry_loop msin c), curveF2 = p2 (geometry_loop msin c),
                curveSum = pSum (geometry_loop msin c), stat_corr = r,
                stat_ortho = 100 - \<bar>r\<bar> * 100,
                page_after = updateTutorialState c pg \<bar>r\<bar>\<rparr>"
proof -
  let ?g = "geometry_loop msin c"
  have "statistic ?g = Inr (r, \<bar>r\<bar>, 100 - \<bar>r\<bar> * 100)"
    using assms by (intro statistic_pos_norm) (simp_all add: geometry_loop_sums flip: spec_norm_def)
  then show ?thesis by (rule updateGeometry_statistic)
qed

lemma updateGeometry_zero_norm:
  assumes "\<not> spec_norm msin c > 0"
  shows "updateGeometry msin c pg =
           Inr \<lparr>curveF1 = p1 (geometry_loop msin c), curveF2 = p2 (geometry_loop msin c),
                curveSum = pSum (geometry_loop msin c), stat_corr = 0,
                stat_ortho = 100,
                page_after = updateTutorialState c pg 0\<rparr>"
proof -
  let ?g = "geometry_loop msin c"
  have n: "sqrt (power1 ?g * power2' ?g) = spec_norm msin c"
    by (simp add: geometry_loop_sums spec_norm_def)
  have "statistic ?g = Inr (0, 0, 100)"
    using assms by (intro statistic_zero_norm) (simp add: n)
  then show ?thesis by (rule updateGeometry_statistic)
qed

lemma legendre5_values:
  "valueA sin cfg_legendre5 i = 1"
  "valueB sin cfg_legendre5 i = 2 * real i / 5 - 1"
  "dt cfg_legendre5 = 12 / 5"
  "points cfg_legendre5 = 5"
  by (simp_all add: valueA_def valueB_def dt_def sample_def cfg_legendre5_def Math_round_def
      getLegendre_def)

lemma legendre5_sums:
  "spec_innerProduct sin cfg_legendre5 = - (12 / 5)"
  "spec_powerA sin cfg_legendre5 = 12"
  "spec_powerB sin cfg_legendre5 = 108 / 25"
  by (simp_all add: spec_innerProduct_def spec_powerA_def spec_powerB_def legendre5_values
      eval_nat_numeral power2_eq_square)

lemma legendre5_norm: "spec_norm sin cfg_legendre5 = 36 / 5"
proof -
  have "spec_powerA sin cfg_legendre5 * spec_powerB sin cfg_legendre5 = (36 / 5)\<^sup>2"
    by (simp add: legendre5_sums power2_eq_square)
  then show ?thesis by (simp add: spec_norm_def)
qed

lemma toFixed_third: "toFixed 3 (- (1 / 3)) = Inr (- (333 / 1000))"
  by (simp add: toFixed_def)

lemma amp1_zero: "amp1 c = 0 \<Longrightarrow> valueA msin c i = 0"
  by (cases "mode c") (simp_all add: valueA_def sample_def Let_def)

lemma amp2_zero: "amp2 c = 0 \<Longrightarrow> valueB msin c i = 0"
  by (cases "mode c") (simp_all add: valueB_def sample_def Let_def)

lemma zero_signal_norm:
  assumes "(\<forall>i<points c. valueA msin c i = 0) \<or> (\<forall>i<points c. valueB msin c i = 0)"
  shows "spec_norm msin c = 0"
proof -
  have "spec_powerA msin c = 0 \<or> spec_powerB msin c = 0"
    using assms by (auto simp: spec_powerA_def spec_powerB_def)
  then show ?thesis by (auto simp: spec_norm_def)
qed

lemma statistic_overshoot: "statistic geometry_overshoot = Inr (3, 3, - 200)"
proof -
  have "toFixed 3 3 = Inr 3" using toFixed_multiple [of 3 3000] by simp
  then show ?thesis
    using statistic_pos_norm [of geometry_overshoot 3] by (simp add: geometry_overshoot_def)
qed

section \<open>Facts about the waveform branches and the scenarios\<close>

lemma Math_sign_values: "Math_sign v = 1 \<or> Math_sign v = 0 \<or> Math_sign v = - 1"
  by (simp add: Math_sign_def)

lemma square_valueA:
  assumes "mode c = Square"
  shows "valueA msin c i = 0.8 * spec_square msin (amp1 c) (f1 c) (real i / real (points c)) 0"
  using assms by (simp add: valueA_def sample_def getWalsh_def spec_square_def)

lemma square_valueB:
  assumes "mode c = Square"
  shows "valueB msin c i
           = 0.8 * spec_square msin (amp2 c) (f2 c)
                     (real i / real (points c) + phase c / 360 / (if f2 c = 0 then 1 else f2 c)) 0"
  using assms by (simp add: valueB_def sample_def spec_square_def Let_def)

lemma square_shift_angle:
  assumes "f \<noteq> 0"
  shows "2 * pi * f * (t + ph / 360 / f) = 2 * pi * f * t + ph * pi / 180"
  using assms by (simp add: field_simps)

lemma cfg_square_sel:
  "mode cfg_square = Square" "points cfg_square = 1200" "f1 cfg_square = 2" "f2 cfg_square = 3"
  "amp1 cfg_square = 1" "amp2 cfg_square = 1" "phase cfg_square = 0"
  by (simp_all add: cfg_square_def cfg_default_def)

lemma spec_square_peak:
  "spec_square sin 1 2 (150 / 1200) 0 = 1"
  "spec_square sin 1 3 (100 / 1200) 0 = 1"
  by (simp_all add: spec_square_def Math_sign_def)

lemma poly_sample_phase:
  assumes "mode c = Poly"
  shows "sample msin (c\<lparr>phase := ph\<rparr>) i = sample msin c i"
  using assms by (simp add: sample_def)

lemma poly_loop_phase:
  assumes "mode c = Poly"
  shows "geometry_loop msin (c\<lparr>phase := ph\<rparr>) = geometry_loop msin c"
proof -
  have "loop_body msin (c\<lparr>phase := ph\<rparr>) = loop_body msin c"
    by (intro ext) (simp add: loop_body_def poly_sample_phase [OF assms])
  then show ?thesis by (simp add: geometry_loop_def)
qed

lemma poly_tutorial_phase:
  assumes "mode c = Poly"
  shows "updateTutorialState (c\<lparr>phase := ph\<rparr>) pg a = updateTutorialState c pg a"
  using assms by (simp add: updateTutorialState_def Let_def)

lemma updateGeometry_total:
  "\<exists>r. updateGeometry msin c pg = Inr r
        \<and> curveF1 r = p1 (geometry_loop msin c) \<and> curveF2 r = p2 (geometry_loop msin c)
        \<and> curveSum r = pSum (geometry_loop msin c)"
proof (cases "spec_norm msin c > 0")
  case True
  obtain v where v: "toFixed 3 (spec_innerProduct msin c / spec_norm msin c) = Inr v"
    using toFixed_Inr [of 3] by auto
  show ?thesis using updateGeometry_rounded [OF True v] by simp
next
  case False
  show ?thesis using updateGeometry_zero_norm [OF False] by simp
qed

lemma curve_lengths:
  "length (p1 (geometry_loop msin c)) = 3 * points c"
  "length (p2 (geometry_loop msin c)) = 3 * points c"
  "length (pSum (geometry_loop msin c)) = 3 * points c"
  by (simp_all add: geometry_loop_curves length_concat comp_def sum_list_triv)

lemma one_point_values:
  "points cfg_one_point = 1" "valueA sin cfg_one_point 0 = 0" "valueB sin cfg_one_point 0 = 0"
  "position sin cfg_one_point 0 = - 6"
  by (simp_all add: cfg_one_point_def cfg_default_def valueA_def valueB_def position_def sample_def)

lemma one_point_tutorial: "updateTutorialState cfg_one_point page0 0 = page0"
  by (simp add: updateTutorialState_def Let_def cfg_one_point_def cfg_default_def page0_def TARGETS_def)

lemma sum_reflect_zero:
  fixes f :: "nat \<Rightarrow> real"
  assumes refl: "\<And>i. i \<le> n \<Longrightarrow> f (n - i) = - f i" and zero: "f 0 = 0"
  shows "(\<Sum>i<n. f i) = 0"
proof -
  have fn: "f n = 0" using refl [of 0] zero by simp
  have "(\<Sum>i<n. f i) = (\<Sum>i<n. f (n - Suc i))"
    by (rule sum.nat_diff_reindex [symmetric])
  also have "\<dots> = (\<Sum>i<n. - f (Suc i))"
    by (intro sum.cong refl) simp_all
  also have "\<dots> = - (\<Sum>i<n. f (Suc i))"
    by (simp add: sum_negf)
  also have "(\<Sum>i<n. f (Suc i)) = (\<Sum>i<n. f i)"
    using sum.lessThan_Suc_shift [of f n] by (simp add: fn zero)
  finally show ?thesis by simp
qed

lemma sin_4pi_minus: "sin (4 * pi - x) = - sin (x :: real)"
proof -
  have "sin (4 * pi - x) = sin ((2 * pi - x) + 2 * pi)" by (simp add: algebra_simps)
  then show ?thesis by (simp only: sin_periodic sin_2pi_minus)
qed

lemma cos_4pi_minus: "cos (4 * pi - x) = cos (x :: real)"
proof -
  have "cos (4 * pi - x) = cos ((2 * pi - x) + 2 * pi)" by (simp add: algebra_simps)
  then show ?thesis by (simp only: cos_periodic cos_2pi_minus)
qed

lemma iq_values:
  "points cfg_iq = 1200"
  "valueA sin cfg_iq i = sin (pi * real i / 300)"
  "valueB sin cfg_iq i = cos (pi * real i / 300)"
proof -
  show "points cfg_iq = 1200" by (simp add: cfg_iq_def cfg_default_def)
  have a: "2 * pi * 2 * (real i / 1200) = pi * real i / 300" by simp
  show "valueA sin cfg_iq i = sin (pi * real i / 300)"
    by (simp add: valueA_def sample_def cfg_iq_def cfg_default_def)
  have "sin (pi * real i / 300 + pi / 2) = cos (pi * real i / 300)"
    by (simp add: sin_add)
  then show "valueB sin cfg_iq i = cos (pi * real i / 300)"
    by (simp add: valueB_def sample_def cfg_iq_def cfg_default_def)
qed

lemma iq_inner_zero: "spec_innerProduct sin cfg_iq = 0"
proof -
  let ?f = "\<lambda>i. valueA sin cfg_iq i * valueB sin cfg_iq i * dt cfg_iq"
  have "?f (1200 - i) = - ?f i" if "i \<le> 1200" for i
  proof -
    let ?x = "pi * real i / 300"
    have eq: "pi * real (1200 - i) / 300 = 4 * pi - ?x"
      using that by (simp add: field_simps)
    have "?f (1200 - i) = sin (4 * pi - ?x) * cos (4 * pi - ?x) * dt cfg_iq"
      by (simp only: iq_values eq)
    also have "\<dots> = - (sin ?x * cos ?x * dt cfg_iq)"
      by (simp only: sin_4pi_minus cos_4pi_minus mult_minus_left)
    also have "\<dots> = - ?f i"
      by (simp only: iq_values)
    finally show ?thesis .
  qed
  moreover have "?f 0 = 0" by (simp add: iq_values)
  ultimately have "(\<Sum>i<1200. ?f i) = 0" by (rule sum_reflect_zero)
  then show ?thesis by (simp add: spec_innerProduct_def iq_values)
qed

lemma toFixed_zero: "d \<le> 100 \<Longrightarrow> toFixed d 0 = Inr 0"
  by (simp add: toFixed_def)

lemma updateGeometry_orthogonal:
  assumes "spec_innerProduct msin c = 0"
  shows "updateGeometry msin c pg =
           Inr \<lparr>curveF1 = p1 (geometry_loop msin c), curveF2 = p2 (geometry_loop msin c),
                curveSum = pSum (geometry_loop msin c), stat_corr = 0, stat_ortho = 100,
                page_after = updateTutorialState c pg 0\<rparr>"
proof (cases "spec_norm msin c > 0")
  case True
  have "toFixed 3 (spec_innerProduct msin c / spec_norm msin c) = Inr 0"
    by (simp add: assms toFixed_zero)
  from updateGeometry_rounded [OF True this, of pg] show ?thesis by simp
next
  case False
  then show ?thesis by (rule updateGeometry_zero_norm)
qed

lemma collision_values:
  "points cfg_collision = 1200"
  "dt cfg_collision = 1 / 100"
  "valueB sin cfg_collision i = valueA sin cfg_collision i"
  "valueA sin cfg_collision 150 = 1"
  by (simp_all add: cfg_collision_def cfg_default_def dt_def valueA_def valueB_def sample_def)

lemma collision_power: "spec_powerA sin cfg_collision > 0"
proof -
  let ?f = "\<lambda>i. (valueA sin cfg_collision i)\<^sup>2 * dt cfg_collision"
  have "0 < sum ?f {..<1200}"
  proof (rule sum_pos2 [where i = 150])
    show "0 < ?f 150" by (simp add: collision_values)
    show "0 \<le> ?f i" for i by (simp add: collision_values)
  qed simp_all
  then show ?thesis by (simp add: spec_powerA_def collision_values)
qed

lemma collision_quotient:
  "spec_norm sin cfg_collision > 0"
  "spec_innerProduct sin cfg_collision / spec_norm sin cfg_collision = 1"
proof -
  have B: "spec_powerB sin cfg_collision = spec_powerA sin cfg_collision"
    by (simp add: spec_powerA_def spec_powerB_def collision_values)
  have I: "spec_innerProduct sin cfg_collision = spec_powerA sin cfg_collision"
    by (simp add: spec_powerA_def spec_innerProduct_def collision_values power2_eq_square)
  have N: "spec_norm sin cfg_collision = spec_powerA sin cfg_collision"
    using collision_power by (simp add: spec_norm_def B)
  show "spec_norm sin cfg_collision > 0" using collision_power by (simp add: N)
  show "spec_innerProduct sin cfg_collision / spec_norm sin cfg_collision = 1"
    using collision_power by (simp add: N I)
qed

lemma toFixed_one: "toFixed 3 1 = Inr 1"
  using toFixed_multiple [of 3 1000] by simp

lemma collision_update:
  "updateGeometry sin cfg_collision pg =
     Inr \<lparr>curveF1 = p1 (geometry_loop sin cfg_collision), curveF2 = p2 (geometry_loop sin cfg_collision),
          curveSum = pSum (geometry_loop sin cfg_collision), stat_corr = 1, stat_ortho = 0,
          page_after = updateTutorialState cfg_collision pg 1\<rparr>"
proof -
  have "toFixed 3 (spec_innerProduct sin cfg_collision / spec_norm sin cfg_collision) = Inr 1"
    by (simp only: collision_quotient toFixed_one)
  from updateGeometry_rounded [OF collision_quotient(1) this, of pg] show ?thesis by simp
qed

lemma phase100_sel:
  "mode cfg_phase100 = Sine" "f1 cfg_phase100 = 2" "f2 cfg_phase100 = 2" "phase cfg_phase100 = 100"
  "mode cfg_phase100_silent = Sine" "f1 cfg_phase100_silent = 2" "f2 cfg_phase100_silent = 2"
  "phase cfg_phase100_silent = 100" "amp1 cfg_phase100_silent = 0"
  by (simp_all add: cfg_phase100_silent_def cfg_phase100_def cfg_default_def)

lemma phase_neg90_sel:
  "mode cfg_phase_neg90 = Sine" "f1 cfg_phase_neg90 = 2" "f2 cfg_phase_neg90 = 2"
  "phase cfg_phase_neg90 = - 90"
  by (simp_all add: cfg_phase_neg90_def cfg_default_def)

lemma spec_quadrature_phase_examples:
  "spec_quadrature_phase 100" "spec_quadrature_phase (- 90)"
  by (simp_all add: spec_quadrature_phase_def spec_mod_def)

lemma js_rem_examples: "js_rem 100 180 = 100" "js_rem (- 90) 180 = - 90"
proof -
  show "js_rem 100 180 = 100" by (simp add: js_rem_def)
  have "\<lceil>- (1 / 2) :: real\<rceil> = 0" by linarith
  then show "js_rem (- 90) 180 = - 90" by (simp add: js_rem_def)
qed

lemma preset_tutorial:
  assumes "mode c = Sine" and "\<not> a > 0.8" and "\<not> \<bar>js_rem (phase c) 180 - 90\<bar> < 10"
  shows "updateTutorialState c page0 a = page0"
  using assms by (simp add: updateTutorialState_def Let_def page0_def TARGETS_def)

lemma phase100_silent_update:
  "updateGeometry sin cfg_phase100_silent page0 =
     Inr \<lparr>curveF1 = p1 (geometry_loop sin cfg_phase100_silent),
          curveF2 = p2 (geometry_loop sin cfg_phase100_silent),
          curveSum = pSum (geometry_loop sin cfg_phase100_silent),
          stat_corr = 0, stat_ortho = 100, page_after = page0\<rparr>"
proof -
  have "\<forall>i<points cfg_phase100_silent. valueA sin cfg_phase100_silent i = 0"
    by (simp add: amp1_zero phase100_sel)
  then have "\<not> spec_norm sin cfg_phase100_silent > 0" by (simp add: zero_signal_norm)
  moreover have "updateTutorialState cfg_phase100_silent page0 0 = page0"
    by (rule preset_tutorial) (simp_all add: phase100_sel js_rem_examples)
  ultimately show ?thesis using updateGeometry_zero_norm [of sin cfg_phase100_silent page0] by simp
qed

lemma js_rem_negative:
  assumes "a < 0"
  shows "\<not> \<bar>js_rem a 180 - 90\<bar> < 10"
proof -
  have "a / 180 \<le> real_of_int \<lceil>a / 180\<rceil>" by linarith
  then have "a \<le> 180 * real_of_int \<lceil>a / 180\<rceil>" by linarith
  moreover have "js_rem a 180 = a - 180 * real_of_int \<lceil>a / 180\<rceil>"
    using assms by (simp add: js_rem_def)
  ultimately show ?thesis by linarith
qed

lemma js_rem_nonneg:
  assumes "0 \<le> a" and "0 < b"
  shows "js_rem a b = a - b * real_of_int \<lfloor>a / b\<rfloor>"
  using assms by (simp add: js_rem_def Let_def)

section \<open>The Legendre loop computes the recurrence\<close>

lemma spec_legendre_step:
  assumes "2 \<le> k"
  shows "spec_legendre (nat k) x =
           ((2 * real_of_int k - 1) * x * spec_legendre (nat (k - 1)) x
              - (real_of_int k - 1) * spec_legendre (nat (k - 2)) x) / real_of_int k"
proof -
  define j where "j = nat (k - 2)"
  have k: "k = int j + 2" using assms by (simp add: j_def)
  have "nat k = Suc (Suc j)" "nat (k - 1) = Suc j" "nat (k - 2) = j" by (simp_all add: k)
  moreover have "real_of_int k = real (Suc (Suc j))" by (simp add: k)
  ultimately show ?thesis by (simp del: of_nat_Suc)
qed

lemma legendre_loop_spec:
  assumes "2 \<le> k" and "k \<le> n + 1" and "pc = spec_legendre (nat (k - 1)) x"
  shows "legendre_loop n k x (spec_legendre (nat (k - 2)) x) (spec_legendre (nat (k - 1)) x) pc
           = spec_legendre (nat n) x"
  using assms
proof (induction "nat (n + 1 - k)" arbitrary: k pc)
  case 0
  then have "k = n + 1" by simp
  then show ?case using "0.prems" by (simp add: legendre_loop.simps)
next
  case (Suc m)
  then have le: "k \<le> n" by linarith
  have m: "m = nat (n + 1 - (k + 1))" using Suc.hyps(2) by linarith
  have step: "((2 * real_of_int k - 1) * x * spec_legendre (nat (k - 1)) x
                 - (real_of_int k - 1) * spec_legendre (nat (k - 2)) x) / real_of_int k
              = spec_legendre (nat k) x"
    using spec_legendre_step [OF Suc.prems(1)] by simp
  have "legendre_loop n (k + 1) x (spec_legendre (nat (k + 1 - 2)) x)
          (spec_legendre (nat (k + 1 - 1)) x) (spec_legendre (nat k) x) = spec_legendre (nat n) x"
    using Suc.prems le by (intro Suc.hyps(1) [OF m]) simp_all
  then show ?case
    using le by (subst legendre_loop.simps) (simp add: step Let_def)
qed

lemma getLegendre_spec:
  assumes "0 \<le> n"
  shows "getLegendre n x = spec_legendre (nat n) x"
proof -
  consider "n = 0" | "n = 1" | "2 \<le> n" using assms by linarith
  then show ?thesis
  proof cases
    case 3
    then show ?thesis
      using legendre_loop_spec [of 2 n x x] by (simp add: getLegendre_def)
  qed (simp_all add: getLegendre_def)
qed

lemma getLegendre_negative: "n < 0 \<Longrightarrow> getLegendre n x = x"
  by (simp add: getLegendre_def legendre_loop.simps)

section \<open>The correlation statistic\<close>

text \<open>
  C1. For every configuration whose norm \<open>sqrt (powerA * powerB)\<close> is strictly positive,
  \<^verbatim>\<open>updateGeometry\<close> raises nothing and the correlation it reports is the quotient
  of the plain left Riemann sums, with no trapezoid correction and no mean-centring,
  printed by \<^verbatim>\<open>toFixed(3)\<close>: the multiple of 0.001 nearest to the quotient, hence
  within 0.0005 of it.
\<close>

theorem correlation_rounded:
  assumes "spec_norm msin c > 0"
  shows "\<exists>r. updateGeometry msin c pg = Inr r
           \<and> toFixed 3 (spec_innerProduct msin c / spec_norm msin c) = Inr (stat_corr r)
           \<and> \<bar>stat_corr r - spec_correlation msin c\<bar> \<le> 1 / 2000"
proof -
  obtain v where v: "toFixed 3 (spec_innerProduct msin c / spec_norm msin c) = Inr v"
    using toFixed_Inr [of 3] by auto
  have "\<bar>v - spec_correlation msin c\<bar> \<le> 1 / 2000"
    using toFixed_3_near [OF v] assms by (simp add: spec_correlation_def)
  then show ?thesis using updateGeometry_rounded [OF assms v] v by simp
qed

theorem correlation_rounded_witness:
  "spec_norm sin cfg_legendre5 > 0
     \<and> map_sum id stat_corr (updateGeometry sin cfg_legendre5 page0) = Inr (- (333 / 1000))"
proof -
  have pos: "spec_norm sin cfg_legendre5 > 0" by (simp add: legendre5_norm)
  have q: "spec_innerProduct sin cfg_legendre5 / spec_norm sin cfg_legendre5 = - (1 / 3)"
    by (simp add: legendre5_sums legendre5_norm)
  from correlation_rounded [OF pos, of page0] obtain r where
    "updateGeometry sin cfg_legendre5 page0 = Inr r" "toFixed 3 (- (1 / 3)) = Inr (stat_corr r)"
    unfolding q by blast
  then show ?thesis using pos by (simp add: toFixed_third)
qed

text \<open>
  The reported correlation is not the quotient itself: on five Legendre samples of orders
  0 and 1 the quotient is \<open>-1/3\<close> and the report is \<open>-0.333\<close>.
\<close>

theorem correlation_exact_counterexample:
  "0 < spec_norm sin cfg_legendre5
     \<and> spec_innerProduct sin cfg_legendre5 / spec_norm sin cfg_legendre5 = - (1 / 3)
     \<and> map_sum id stat_corr (updateGeometry sin cfg_legendre5 page0) = Inr (- (333 / 1000))"
proof -
  have pos: "spec_norm sin cfg_legendre5 > 0" by (simp add: legendre5_norm)
  have q: "spec_innerProduct sin cfg_legendre5 / spec_norm sin cfg_legendre5 = - (1 / 3)"
    by (simp add: legendre5_sums legendre5_norm)
  have "toFixed 3 (spec_innerProduct sin cfg_legendre5 / spec_norm sin cfg_legendre5) = Inr (- (333 / 1000))"
    unfolding q by (rule toFixed_third)
  from updateGeometry_rounded [OF pos this, of page0] show ?thesis using pos q by simp
qed

text \<open>
  C4. For every configuration in which one of the two signals is zero at every sample, in
  particular when one of the amplitudes is zero, \<^verbatim>\<open>updateGeometry\<close> raises nothing
  and reports the correlation 0.
\<close>

theorem zero_signal_zero_correlation:
  assumes "amp1 c = 0 \<or> amp2 c = 0
             \<or> (\<forall>i<points c. valueA msin c i = 0) \<or> (\<forall>i<points c. valueB msin c i = 0)"
  shows "\<exists>r. updateGeometry msin c pg = Inr r \<and> stat_corr r = 0"
proof -
  have "(\<forall>i<points c. valueA msin c i = 0) \<or> (\<forall>i<points c. valueB msin c i = 0)"
    using assms amp1_zero amp2_zero by blast
  then have "\<not> spec_norm msin c > 0" by (simp add: zero_signal_norm)
  then show ?thesis by (simp add: updateGeometry_zero_norm)
qed

theorem zero_signal_zero_correlation_witness:
  "amp1 (cfg_default\<lparr>amp1 := 0\<rparr>) = 0
     \<and> map_sum id stat_corr (updateGeometry sin (cfg_default\<lparr>amp1 := 0\<rparr>) page0) = Inr 0"
proof -
  have h: "amp1 (cfg_default\<lparr>amp1 := 0\<rparr>) = 0" by simp
  from zero_signal_zero_correlation [where c = "cfg_default\<lparr>amp1 := 0\<rparr>" and msin = sin and pg = page0] h
  obtain r where "updateGeometry sin (cfg_default\<lparr>amp1 := 0\<rparr>) page0 = Inr r" "stat_corr r = 0"
    by blast
  then show ?thesis using h by simp
qed

text \<open>
  C5. For every configuration \<^verbatim>\<open>updateGeometry\<close> raises nothing and the correlation
  it reports lies in the closed interval from \<open>-1\<close> to \<open>1\<close>; the accumulated inner
  product never exceeds, in absolute value, the geometric mean of the two accumulated
  powers (the discrete Cauchy-Schwarz inequality).
\<close>

theorem correlation_in_unit_interval:
  "\<exists>r. updateGeometry msin c pg = Inr r \<and> - 1 \<le> stat_corr r \<and> stat_corr r \<le> 1
       \<and> \<bar>integral (geometry_loop msin c)\<bar> \<le> sqrt (power1 (geometry_loop msin c) * power2' (geometry_loop msin c))"
proof -
  have cs: "\<bar>integral (geometry_loop msin c)\<bar> \<le> sqrt (power1 (geometry_loop msin c) * power2' (geometry_loop msin c))"
    using spec_inner_le_norm [of msin c] by (simp add: geometry_loop_sums spec_norm_def)
  show ?thesis
  proof (cases "spec_norm msin c > 0")
    case True
    obtain v where v: "toFixed 3 (spec_innerProduct msin c / spec_norm msin c) = Inr v"
      using toFixed_Inr [of 3] by auto
    have "\<bar>spec_innerProduct msin c / spec_norm msin c\<bar> \<le> 1"
      using True spec_inner_le_norm [of msin c] by simp
    then have "\<bar>v\<bar> \<le> 1" using v by (rule toFixed_3_unit)
    then show ?thesis using updateGeometry_rounded [OF True v] cs by (simp add: abs_le_iff)
  next
    case False
    then show ?thesis using updateGeometry_zero_norm [OF False] cs by simp
  qed
qed

text \<open>
  C6. Whatever the accumulated sums are, the reported orthogonality score is exactly
  \<open>100 - 100 * \<bar>correlation\<bar>\<close> for the reported correlation, with no clamping: when
  the absolute correlation exceeds 1 the score is negative.
\<close>

theorem ortho_percent_unclamped:
  assumes "statistic g = Inr (corr, absCorr, ortho)"
  shows "ortho = 100 - 100 * \<bar>corr\<bar> \<and> (\<bar>corr\<bar> > 1 \<longrightarrow> ortho < 0)"
proof -
  have "ortho = 100 - 100 * \<bar>corr\<bar>"
    using assms by (cases g rule: statistic_cases) auto
  then show ?thesis by simp
qed

theorem ortho_percent_unclamped_witness:
  "statistic geometry_overshoot = Inr (3, 3, - 200) \<and> \<bar>3 :: real\<bar> > 1 \<and> (- 200 :: real) < 0
     \<and> (- 200 :: real) = 100 - 100 * \<bar>3\<bar>"
  using ortho_percent_unclamped [OF statistic_overshoot] statistic_overshoot by simp

section \<open>Legendre polynomials\<close>

text \<open>
  C7. \<^verbatim>\<open>getLegendre\<close> returns 1 at order 0, \<open>x\<close> at order 1 and
  \<open>(3 * x\<^sup>2 - 1) / 2\<close> at order 2, for every \<open>x\<close>, and from order 2 on its values
  satisfy the three-term recurrence
  \<open>k * P k = (2 * k - 1) * x * P (k - 1) - (k - 1) * P (k - 2)\<close>.
\<close>

theorem getLegendre_closed_forms:
  "getLegendre 0 x = 1 \<and> getLegendre 1 x = x \<and> getLegendre 2 x = (3 * x\<^sup>2 - 1) / 2
     \<and> (\<forall>k\<ge>2. real_of_int k * getLegendre k x
            = (2 * real_of_int k - 1) * x * getLegendre (k - 1) x
                - (real_of_int k - 1) * getLegendre (k - 2) x)"
proof -
  have two: "getLegendre 2 x = (3 * x\<^sup>2 - 1) / 2"
    by (simp add: getLegendre_def legendre_loop.simps power2_eq_square)
  have "real_of_int k * getLegendre k x
          = (2 * real_of_int k - 1) * x * getLegendre (k - 1) x
              - (real_of_int k - 1) * getLegendre (k - 2) x" if "2 \<le> k" for k
    using that spec_legendre_step [OF that, of x] by (simp add: getLegendre_spec)
  then show ?thesis using two by (simp add: getLegendre_def)
qed

theorem getLegendre_closed_forms_witness:
  "(2 :: int) \<le> 3 \<and> getLegendre 2 (1 / 2) = - (1 / 8) \<and> getLegendre 3 (1 / 2) = - (7 / 16)"
proof -
  note L = getLegendre_closed_forms [of "1 / 2"]
  have p1: "getLegendre 1 (1 / 2) = 1 / 2" using L by blast
  have p2: "getLegendre 2 (1 / 2) = - (1 / 8)" using L by (simp add: power2_eq_square)
  have "(2 :: int) \<le> 3 \<longrightarrow> real_of_int 3 * getLegendre 3 (1 / 2)
          = (2 * real_of_int 3 - 1) * (1 / 2) * getLegendre (3 - 1) (1 / 2)
              - (real_of_int 3 - 1) * getLegendre (3 - 2) (1 / 2)"
    using L by blast
  then have "getLegendre 3 (1 / 2) = - (7 / 16)" by (simp add: p1 p2)
  then show ?thesis using p2 by simp
qed

section \<open>The tutorial classifier\<close>

text \<open>
  C2. For every classifier input with \<open>absCorr > 0.8\<close> the tutorial box gets the
  critical (collision) style whatever the mode, the frequencies and the phase are, and
  the message is the packet collision in wavelet mode, the basis collapse in Legendre
  mode, and otherwise the generic one: the signal overlap, or, when the active view is
  \<^verbatim>\<open>f1\<close> or \<^verbatim>\<open>f2\<close>, the visual illusion.
\<close>

theorem collision_priority:
  assumes "absCorr > 0.8"
  shows "box_style (updateTutorialState c pg absCorr) = Critical
           \<and> tutorial (updateTutorialState c pg absCorr)
               = (if mode c = Wave then PacketCollision
                  else if mode c = Poly then BasisCollapse
                  else if activeBtn pg = Some ''f1'' \<or> activeBtn pg = Some ''f2''
                    then VisualIllusion
                  else SignalCollision)"
  using assms by (auto simp: updateTutorialState_def Let_def split: option.splits)

theorem collision_priority_witness:
  "(1 :: real) > 0.8
     \<and> map_sum id page_after (updateGeometry sin cfg_collision page0)
         = Inr (page0\<lparr>box_style := Critical, tutorial := SignalCollision\<rparr>)"
proof -
  have h: "(1 :: real) > 0.8" by simp
  have sel: "mode cfg_collision = Sine" "activeBtn page0 = Some ''3d''"
    by (simp_all add: cfg_collision_def cfg_default_def page0_def)
  from collision_priority [OF h, of cfg_collision page0]
  have "box_style (updateTutorialState cfg_collision page0 1) = Critical"
    and "tutorial (updateTutorialState cfg_collision page0 1) = SignalCollision"
    by (simp_all add: sel)
  moreover have "activeBtn (updateTutorialState cfg_collision page0 1) = activeBtn page0"
    by (simp add: updateTutorialState_def Let_def)
  ultimately have "updateTutorialState cfg_collision page0 1
                     = page0\<lparr>box_style := Critical, tutorial := SignalCollision\<rparr>"
    by (simp add: page0_def)
  then show ?thesis using h by (simp add: collision_update)
qed

text \<open>
  The generic collision message is not always the signal overlap: in the \<^verbatim>\<open>f1\<close>
  view, sine mode with equal frequencies and phase 0 gives correlation 1 and the visual
  illusion message.
\<close>

theorem collision_subkind_counterexample:
  "map_sum id stat_corr (updateGeometry sin cfg_collision page_f1) = Inr 1
     \<and> mode cfg_collision = Sine
     \<and> map_sum id page_after (updateGeometry sin cfg_collision page_f1)
         = Inr (page_f1\<lparr>box_style := Critical, tutorial := VisualIllusion\<rparr>)"
proof -
  have "updateTutorialState cfg_collision page_f1 1
          = page_f1\<lparr>box_style := Critical, tutorial := VisualIllusion\<rparr>"
    by (simp add: updateTutorialState_def Let_def cfg_collision_def cfg_default_def page_f1_def)
  moreover have "mode cfg_collision = Sine" by (simp add: cfg_collision_def cfg_default_def)
  ultimately show ?thesis by (simp add: collision_update)
qed

text \<open>
  C3. For every configuration in sine mode with equal frequencies, a phase whose
  remainder \<^verbatim>\<open>phase % 180\<close> is strictly less than 10 degrees away from 90, and an
  absolute correlation not above 0.8, the classifier sets the magic style and the I/Q
  (quadrature) message. The remainder is the one of the code: it has the sign of the
  phase, so for a phase that is not negative it is the usual \<open>mod\<close>, and no negative
  phase meets the condition. In particular the scenario with both frequencies 2 and
  phase 90 ends with the quadrature message.
\<close>

theorem quadrature_magic:
  assumes "mode c = Sine" and "f1 c = f2 c" and "\<bar>js_rem (phase c) 180 - 90\<bar> < 10"
    and "\<not> absCorr > 0.8"
  shows "updateTutorialState c pg absCorr = pg\<lparr>box_style := Magic, tutorial := IQMagic\<rparr>"
  using assms by (simp add: updateTutorialState_def Let_def)

theorem quadrature_magic_witness:
  "mode cfg_iq = Sine \<and> f1 cfg_iq = 2 \<and> f2 cfg_iq = 2 \<and> phase cfg_iq = 90
     \<and> \<bar>js_rem (phase cfg_iq) 180 - 90\<bar> < 10 \<and> \<not> (0 :: real) > 0.8
     \<and> map_sum id page_after (updateGeometry sin cfg_iq page0)
         = Inr (page0\<lparr>box_style := Magic, tutorial := IQMagic\<rparr>)"
proof -
  have sel: "mode cfg_iq = Sine" "f1 cfg_iq = 2" "f2 cfg_iq = 2" "phase cfg_iq = 90"
    by (simp_all add: cfg_iq_def cfg_default_def)
  have r: "\<bar>js_rem (phase cfg_iq) 180 - 90\<bar> < 10"
    by (simp add: sel js_rem_def)
  have a: "\<not> (0 :: real) > 0.8" by simp
  have "f1 cfg_iq = f2 cfg_iq" by (simp add: sel)
  from quadrature_magic [OF sel(1) this r a, of page0]
  have "updateTutorialState cfg_iq page0 0 = page0\<lparr>box_style := Magic, tutorial := IQMagic\<rparr>" .
  then show ?thesis using sel r by (simp add: updateGeometry_orthogonal [OF iq_inner_zero])
qed

text \<open>
  The condition of the code is narrower than "the phase modulo 180 is within 10 degrees
  of 90". At phase 100, exactly 10 degrees away, and at phase \<open>-90\<close>, whose
  mathematical remainder is 90 and whose remainder in the code is \<open>-90\<close>, sine mode with
  equal frequencies and a correlation below the threshold keeps the preset message. With
  the first amplitude at 0 the whole update at phase 100 reports the correlation 0 and
  ends with the preset message.
\<close>

theorem quadrature_phase_counterexample:
  "mode cfg_phase100 = Sine \<and> f1 cfg_phase100 = f2 cfg_phase100
     \<and> spec_quadrature_phase (phase cfg_phase100) \<and> \<not> (0.174 :: real) > 0.8
     \<and> updateTutorialState cfg_phase100 page0 0.174 = page0
     \<and> mode cfg_phase_neg90 = Sine \<and> f1 cfg_phase_neg90 = f2 cfg_phase_neg90
     \<and> spec_quadrature_phase (phase cfg_phase_neg90) \<and> \<not> (0 :: real) > 0.8
     \<and> updateTutorialState cfg_phase_neg90 page0 0 = page0
     \<and> mode cfg_phase100_silent = Sine \<and> f1 cfg_phase100_silent = f2 cfg_phase100_silent
     \<and> spec_quadrature_phase (phase cfg_phase100_silent)
     \<and> map_sum id stat_corr (updateGeometry sin cfg_phase100_silent page0) = Inr 0
     \<and> map_sum id page_after (updateGeometry sin cfg_phase100_silent page0) = Inr page0
     \<and> tutorial page0 = Preset ''3d''"
proof -
  have a: "updateTutorialState cfg_phase100 page0 0.174 = page0"
    by (rule preset_tutorial) (simp_all add: phase100_sel js_rem_examples)
  have b: "updateTutorialState cfg_phase_neg90 page0 0 = page0"
    by (rule preset_tutorial) (simp_all add: phase_neg90_sel js_rem_examples)
  have c: "tutorial page0 = Preset ''3d''" by (simp add: page0_def)
  show ?thesis
    using a b c
    by (simp add: phase100_sel phase_neg90_sel spec_quadrature_phase_examples
        phase100_silent_update)
qed

section \<open>Waveform branches\<close>

text \<open>
  C8. In square mode every sample of the first signal is
  \<open>0.8 * amp1 * sign (Math.sin (2 * pi * f1 * tNormalized))\<close>, with no phase, and every
  sample of the second signal is
  \<open>0.8 * amp2 * sign (Math.sin (2 * pi * f2 * (tNormalized + tShift)))\<close>, where
  \<open>tShift = (phase / 360) / f2\<close> (divided by 1 when \<open>f2\<close> is 0) and \<open>sign 0 = 0\<close>;
  the sine is the value the code computes, whatever it is. When \<open>f2\<close> is not 0 the
  angle of the second signal is, in exact arithmetic,
  \<open>2 * pi * f2 * tNormalized + phase * pi / 180\<close>. So every value is 0.8 times the
  amplitude, its negative, or 0.
\<close>

theorem square_samples_scaled:
  assumes "mode c = Square" and "i < points c"
  shows "valueA msin c i = 0.8 * spec_square msin (amp1 c) (f1 c) (real i / real (points c)) 0
           \<and> valueB msin c i
               = 0.8 * spec_square msin (amp2 c) (f2 c)
                         (real i / real (points c) + phase c / 360 / (if f2 c = 0 then 1 else f2 c)) 0
           \<and> (f2 c \<noteq> 0 \<longrightarrow>
                2 * pi * f2 c * (real i / real (points c) + phase c / 360 / f2 c)
                  = 2 * pi * f2 c * (real i / real (points c)) + phase c * pi / 180)
           \<and> (valueA msin c i = 0.8 * amp1 c \<or> valueA msin c i = 0
                \<or> valueA msin c i = - (0.8 * amp1 c))
           \<and> (valueB msin c i = 0.8 * amp2 c \<or> valueB msin c i = 0
                \<or> valueB msin c i = - (0.8 * amp2 c))"
proof -
  have A: "valueA msin c i = 0.8 * amp1 c \<or> valueA msin c i = 0
             \<or> valueA msin c i = - (0.8 * amp1 c)"
    using assms(1) Math_sign_values [of "msin (2 * pi * f1 c * (real i / real (points c)))"]
    by (auto simp: valueA_def sample_def getWalsh_def)
  have B: "valueB msin c i = 0.8 * amp2 c \<or> valueB msin c i = 0
             \<or> valueB msin c i = - (0.8 * amp2 c)"
    using assms(1)
      Math_sign_values [of "msin (2 * pi * f2 c * (real i / real (points c)
                                   + phase c / 360 / (if f2 c = 0 then 1 else f2 c)))"]
    by (auto simp: valueB_def sample_def)
  have S: "f2 c \<noteq> 0 \<longrightarrow>
             2 * pi * f2 c * (real i / real (points c) + phase c / 360 / f2 c)
               = 2 * pi * f2 c * (real i / real (points c)) + phase c * pi / 180"
    using square_shift_angle [of "f2 c"] by blast
  show ?thesis
    using square_valueA [OF assms(1), of msin i] square_valueB [OF assms(1), of msin i] S A B
    by blast
qed

theorem square_samples_scaled_witness:
  "mode cfg_square = Square \<and> (150 :: nat) < points cfg_square \<and> (100 :: nat) < points cfg_square
     \<and> f2 cfg_square \<noteq> 0
     \<and> valueA sin cfg_square 150 = 4 / 5 \<and> valueB sin cfg_square 100 = 4 / 5"
proof -
  have h: "mode cfg_square = Square" "(150 :: nat) < points cfg_square"
    "(100 :: nat) < points cfg_square" "f2 cfg_square \<noteq> 0"
    by (simp_all add: cfg_square_sel)
  from square_samples_scaled [OF h(1) h(2), of sin]
  have "valueA sin cfg_square 150
          = 0.8 * spec_square sin (amp1 cfg_square) (f1 cfg_square)
                    (real 150 / real (points cfg_square)) 0"
    by blast
  then have a: "valueA sin cfg_square 150 = 4 / 5"
    using spec_square_peak(1) by (simp add: cfg_square_sel)
  from square_samples_scaled [OF h(1) h(3), of sin]
  have "valueB sin cfg_square 100
          = 0.8 * spec_square sin (amp2 cfg_square) (f2 cfg_square)
                    (real 100 / real (points cfg_square)
                       + phase cfg_square / 360 / (if f2 cfg_square = 0 then 1 else f2 cfg_square)) 0"
    by blast
  then have b: "valueB sin cfg_square 100 = 4 / 5"
    using spec_square_peak(2) by (simp add: cfg_square_sel)
  show ?thesis using h a b by blast
qed

text \<open>
  The factor 0.8 is there: in the start configuration switched to square mode, sample 150
  of the first signal and sample 100 of the second are 0.8, where the unscaled formula
  gives 1. At both samples the sine is 1.
\<close>

theorem square_unscaled_counterexample:
  "valueA sin cfg_square 150 = 4 / 5
     \<and> spec_square sin (amp1 cfg_square) (f1 cfg_square) (150 / 1200) 0 = 1
     \<and> valueB sin cfg_square 100 = 4 / 5
     \<and> spec_square sin (amp2 cfg_square) (f2 cfg_square) (100 / 1200)
          (phase cfg_square * pi / 180) = 1"
proof -
  have m: "mode cfg_square = Square" by (simp add: cfg_square_sel)
  have "valueA sin cfg_square 150 = 4 / 5"
    using square_valueA [OF m, of sin 150] spec_square_peak(1) by (simp add: cfg_square_sel)
  moreover have "valueB sin cfg_square 100 = 4 / 5"
    using square_valueB [OF m, of sin 100] spec_square_peak(2) by (simp add: cfg_square_sel)
  ultimately show ?thesis using spec_square_peak by (simp add: cfg_square_sel)
qed

text \<open>
  C10. In Legendre mode the whole result of \<^verbatim>\<open>updateGeometry\<close> (the three curves,
  the correlation, the orthogonality score and the tutorial state) does not depend on
  the phase.
\<close>

theorem poly_phase_independent:
  assumes "mode c = Poly"
  shows "updateGeometry msin (c\<lparr>phase := ph\<rparr>) pg = updateGeometry msin c pg"
  by (simp add: updateGeometry_def Let_def poly_loop_phase [OF assms] poly_tutorial_phase [OF assms]
      split: sum.split prod.split)

theorem poly_phase_independent_witness:
  "mode cfg_poly = Poly \<and> updateGeometry sin (cfg_poly\<lparr>phase := 90\<rparr>) page0 = updateGeometry sin cfg_poly page0"
proof -
  have h: "mode cfg_poly = Poly" by (simp add: cfg_poly_def)
  from h poly_phase_independent [OF h, of sin 90 page0] show ?thesis by (rule conjI)
qed

section \<open>Configurations are not validated\<close>

text \<open>
  C9. \<^verbatim>\<open>updateGeometry\<close> raises no error for any configuration, valid or not: it
  always produces three curves of \<open>points\<close> samples each and a statistic. There is no
  check of the number of samples, of the domain length or of the Legendre orders.
\<close>

theorem no_configuration_error:
  "\<exists>r. updateGeometry msin c pg = Inr r
        \<and> length (curveF1 r) = 3 * points c \<and> length (curveF2 r) = 3 * points c
        \<and> length (curveSum r) = 3 * points c"
  using updateGeometry_total [of msin c pg] by (auto simp: curve_lengths)

text \<open>
  With a single sample, which the specification calls an invalid configuration, the
  result is a one-point curve and the correlation 0, not an error; a negative domain
  length and a negative Legendre order give a result as well.
\<close>

theorem no_configuration_error_counterexample:
  "points cfg_one_point < 2
     \<and> updateGeometry sin cfg_one_point page0
         = Inr \<lparr>curveF1 = [0, 0, - 6], curveF2 = [0, 0, - 6], curveSum = [0, 0, - 6],
                stat_corr = 0, stat_ortho = 100, page_after = page0\<rparr>
     \<and> length_cfg (cfg_default\<lparr>length_cfg := - 12\<rparr>) \<le> 0
     \<and> \<not> isl (updateGeometry sin (cfg_default\<lparr>length_cfg := - 12\<rparr>) page0)
     \<and> Math_round (f1 (cfg_poly\<lparr>f1 := - 3\<rparr>)) < 0
     \<and> \<not> isl (updateGeometry sin (cfg_poly\<lparr>f1 := - 3\<rparr>) page0)"
proof -
  have "spec_powerA sin cfg_one_point = 0"
    by (simp add: spec_powerA_def one_point_values)
  then have "\<not> spec_norm sin cfg_one_point > 0" by (simp add: spec_norm_def)
  from updateGeometry_zero_norm [OF this, of page0]
  have one: "updateGeometry sin cfg_one_point page0
         = Inr \<lparr>curveF1 = [0, 0, - 6], curveF2 = [0, 0, - 6], curveSum = [0, 0, - 6],
                stat_corr = 0, stat_ortho = 100, page_after = page0\<rparr>"
    by (simp add: geometry_loop_curves one_point_values one_point_tutorial)
  have neg: "\<not> isl (updateGeometry sin c page0)" for c
    using updateGeometry_total [of sin c page0] by auto
  have "Math_round (f1 (cfg_poly\<lparr>f1 := - 3\<rparr>)) < 0" by (simp add: Math_round_def)
  then show ?thesis using one neg by (simp add: one_point_values)
qed

end
